theory Spec2Isabelle
  imports Complex_Main "HOL-Library.Char_ord" "HOL-Library.List_Lexorder"
begin

section \<open>The relational store of \<^verbatim>\<open>EXPENSE_TRACKER.py\<close>\<close>

text \<open>
  The program keeps three SQLite tables behind one connection (class \<^verbatim>\<open>DB\<close>). A table
  is the list of its rows in rowid order. The \<^verbatim>\<open>REAL\<close> columns and the Python floats
  that fill them are read as exact reals: rounding, infinities and NaN are outside this
  model. Row ids and user ids are unbounded integers. Text is a list of bytes; SQLite
  compares and sorts \<^verbatim>\<open>TEXT\<close> bytewise, which is the lexicographic order on
  \<^typ>\<open>string\<close> used below. The description column is nullable in the schema, but every
  caller in the program passes a string.
\<close>

record user_row =
  uid :: int
  username :: string
  password_hash :: string
  budget :: real

record category_row =
  cat_id :: int
  name :: string
  cat_user_id :: "int option"

record expense_row =
  eid :: int
  user_id :: int
  amount :: real
  category :: string
  description :: string
  date :: string

text \<open>
  The three \<^verbatim>\<open>*_seq\<close> fields are the \<^verbatim>\<open>sqlite_sequence\<close> entries that
  \<^verbatim>\<open>AUTOINCREMENT\<close> maintains: the largest rowid ever handed out in that table.
\<close>

record db =
  users :: "user_row list"
  users_seq :: int
  categories :: "category_row list"
  categories_seq :: int
  expenses :: "expense_row list"
  expenses_seq :: int

datatype db_error = IntegrityError

definition empty_db :: db where
  "empty_db = \<lparr>users = [], users_seq = 0, categories = [], categories_seq = 0,
     expenses = [], expenses_seq = 0\<rparr>"

text \<open>An \<^verbatim>\<open>AUTOINCREMENT\<close> key: one more than the largest of the recorded sequence
  value and the rowids present.\<close>

definition next_rowid :: "int \<Rightarrow> int list \<Rightarrow> int" where
  "next_rowid seq ids = max seq (fold max ids 0) + 1"

subsection \<open>Users\<close>

text \<open>
  \<^verbatim>\<open>INSERT INTO users (username, password_hash) VALUES (?,?)\<close>: \<^verbatim>\<open>username\<close> is
  \<^verbatim>\<open>UNIQUE NOT NULL\<close>, \<^verbatim>\<open>budget\<close> takes its default 0.
\<close>

definition insert_user :: "string \<Rightarrow> string \<Rightarrow> db \<Rightarrow> db_error + db" where
  "insert_user uname pw_hash d =
     (if uname \<in> set (map username (users d)) then Inl IntegrityError
      else
        let i = next_rowid (users_seq d) (map uid (users d))
        in Inr (d\<lparr>users := users d @
                    [\<lparr>uid = i, username = uname, password_hash = pw_hash, budget = 0\<rparr>],
                  users_seq := i\<rparr>))"

text \<open>
  \<^verbatim>\<open>DB.add_user\<close> and \<^verbatim>\<open>DB.authenticate\<close>. The hash
  \<^verbatim>\<open>hashlib.sha256(password.encode()).hexdigest()\<close> is the parameter \<open>sha256_hex\<close>.
\<close>

definition add_user :: "(string \<Rightarrow> string) \<Rightarrow> string \<Rightarrow> string \<Rightarrow> db \<Rightarrow> bool \<times> db" where
  "add_user sha256_hex uname password d =
     (let pw_hash = sha256_hex password
      in case insert_user uname pw_hash d of
           Inr d' \<Rightarrow> (True, d')
         | Inl IntegrityError \<Rightarrow> (False, d))"

definition authenticate :: "(string \<Rightarrow> string) \<Rightarrow> string \<Rightarrow> string \<Rightarrow> db \<Rightarrow> user_row option" where
  "authenticate sha256_hex uname password d =
     (let pw_hash = sha256_hex password
      in find (\<lambda>r. username r = uname \<and> password_hash r = pw_hash) (users d))"

definition set_budget :: "int \<Rightarrow> real \<Rightarrow> db \<Rightarrow> db" where
  "set_budget u amt d =
     d\<lparr>users := map (\<lambda>r. if uid r = u then r\<lparr>budget := amt\<rparr> else r) (users d)\<rparr>"

definition get_budget :: "int \<Rightarrow> db \<Rightarrow> real" where
  "get_budget u d =
     (case find (\<lambda>r. uid r = u) (users d) of Some row \<Rightarrow> budget row | None \<Rightarrow> 0)"

subsection \<open>Categories\<close>

text \<open>
  \<^verbatim>\<open>INSERT INTO categories (name, user_id) VALUES (?,?)\<close> under
  \<^verbatim>\<open>UNIQUE(name, user_id)\<close>. SQLite treats every \<^verbatim>\<open>NULL\<close> as distinct from every
  other value, another \<^verbatim>\<open>NULL\<close> included, when it checks a \<^verbatim>\<open>UNIQUE\<close>
  constraint: a row whose \<^verbatim>\<open>user_id\<close> is \<^verbatim>\<open>NULL\<close> never conflicts.
\<close>

definition unique_name_user_id :: "string \<Rightarrow> int option \<Rightarrow> category_row list \<Rightarrow> bool" where
  "unique_name_user_id n u rows =
     (case u of
        None \<Rightarrow> True
      | Some i \<Rightarrow> \<not> list_ex (\<lambda>r. name r = n \<and> cat_user_id r = Some i) rows)"

definition insert_category :: "string \<Rightarrow> int option \<Rightarrow> db \<Rightarrow> db_error + db" where
  "insert_category n u d =
     (if \<not> unique_name_user_id n u (categories d) then Inl IntegrityError
      else
        let i = next_rowid (categories_seq d) (map cat_id (categories d))
        in Inr (d\<lparr>categories := categories d @ [\<lparr>cat_id = i, name = n, cat_user_id = u\<rparr>],
                  categories_seq := i\<rparr>))"

definition defaults :: "string list" where
  "defaults = [''Food'', ''Transport'', ''Shopping'', ''Bills'', ''Entertainment'', ''Other'']"

text \<open>
  \<^verbatim>\<open>DB.create_tables\<close>: the three \<^verbatim>\<open>CREATE TABLE IF NOT EXISTS\<close> statements leave
  an existing store as it is; then the loop over \<^verbatim>\<open>defaults\<close> inserts each name as a
  global category and passes over an \<^verbatim>\<open>IntegrityError\<close>.
\<close>

definition create_tables :: "db \<Rightarrow> db" where
  "create_tables d =
     fold (\<lambda>cat d'. case insert_category cat None d' of
                       Inr d'' \<Rightarrow> d''
                     | Inl IntegrityError \<Rightarrow> d') defaults d"

definition add_category :: "string \<Rightarrow> int option \<Rightarrow> db \<Rightarrow> bool \<times> db" where
  "add_category n u d =
     (case insert_category n u d of
        Inr d' \<Rightarrow> (True, d')
      | Inl IntegrityError \<Rightarrow> (False, d))"

text \<open>\<^verbatim>\<open>DB.get_categories\<close>: both queries end in \<^verbatim>\<open>ORDER BY name\<close> and select the
  name column of every matching row.\<close>

definition get_categories :: "int option \<Rightarrow> db \<Rightarrow> string list" where
  "get_categories u d =
     (case u of
        None \<Rightarrow> sort (map name (filter (\<lambda>r. cat_user_id r = None) (categories d)))
      | Some i \<Rightarrow>
          sort (map name (filter (\<lambda>r. cat_user_id r = None \<or> cat_user_id r = Some i)
                                 (categories d))))"

subsection \<open>Expenses\<close>

definition add_expense :: "int \<Rightarrow> real \<Rightarrow> string \<Rightarrow> string \<Rightarrow> string \<Rightarrow> db \<Rightarrow> db_error + db" where
  "add_expense u amt cat desc dt d =
     (let i = next_rowid (expenses_seq d) (map eid (expenses d))
      in Inr (d\<lparr>expenses := expenses d @
                  [\<lparr>eid = i, user_id = u, amount = amt, category = cat,
                    description = desc, date = dt\<rparr>],
                expenses_seq := i\<rparr>))"


definition delete_expense :: "int \<Rightarrow> db \<Rightarrow> db" where
  "delete_expense exp_id d = d\<lparr>expenses := filter (\<lambda>r. eid r \<noteq> exp_id) (expenses d)\<rparr>"

text \<open>\<^verbatim>\<open>ORDER BY date DESC\<close>, rows of equal date kept in rowid order.\<close>

definition order_by_desc :: "('a \<Rightarrow> 'k::linorder) \<Rightarrow> 'a list \<Rightarrow> 'a list" where
  "order_by_desc f rows = rev (sort_key f (rev rows))"

definition get_expenses :: "int \<Rightarrow> db \<Rightarrow> expense_row list" where
  "get_expenses u d = order_by_desc date (filter (\<lambda>r. user_id r = u) (expenses d))"

subsection \<open>Monthly aggregation\<close>

text \<open>Python's \<^verbatim>\<open>format(n, '0Wd')\<close>: decimal digits, zero-filled to width \<open>W\<close>, the
  minus sign of a negative number counted in the width.\<close>

definition digit_char :: "nat \<Rightarrow> char" where
  "digit_char k = ''0123456789'' ! k"

fun digits :: "nat \<Rightarrow> string" where
  "digits n = (if n < 10 then [digit_char n] else digits (n div 10) @ [digit_char (n mod 10)])"

declare digits.simps [simp del]

definition zfill :: "nat \<Rightarrow> string \<Rightarrow> string" where
  "zfill w s = replicate (w - length s) (CHR ''0'') @ s"

definition fmt_d :: "nat \<Rightarrow> int \<Rightarrow> string" where
  "fmt_d w n =
     (if n < 0 then CHR ''-'' # zfill (w - 1) (digits (nat (- n)))
      else zfill w (digits (nat n)))"

text \<open>The bounds \<^verbatim>\<open>start\<close> and \<^verbatim>\<open>end\<close> that \<^verbatim>\<open>get_monthly_total\<close> and
  \<^verbatim>\<open>get_category_summary\<close> both compute.\<close>

definition month_start :: "int \<Rightarrow> int \<Rightarrow> string" where
  "month_start year month = fmt_d 4 year @ ''-'' @ fmt_d 2 month @ ''-01''"

definition month_end :: "int \<Rightarrow> int \<Rightarrow> string" where
  "month_end year month =
     (if month = 12 then fmt_d 4 (year + 1) @ ''-01-01''
      else fmt_d 4 year @ ''-'' @ fmt_d 2 (month + 1) @ ''-01'')"

text \<open>The rows selected by
  \<^verbatim>\<open>WHERE user_id=? AND date>=? AND date<?\<close>.\<close>

definition month_rows :: "int \<Rightarrow> int \<Rightarrow> int \<Rightarrow> db \<Rightarrow> expense_row list" where
  "month_rows u year month d =
     filter (\<lambda>r. user_id r = u \<and> month_start year month \<le> date r \<and> date r < month_end year month)
            (expenses d)"

text \<open>SQL \<^verbatim>\<open>SUM\<close>: \<^verbatim>\<open>NULL\<close> over no rows.\<close>

definition sql_sum :: "real list \<Rightarrow> real option" where
  "sql_sum xs = (if xs = [] then None else Some (sum_list xs))"

definition get_monthly_total :: "int \<Rightarrow> int \<Rightarrow> int \<Rightarrow> db \<Rightarrow> real" where
  "get_monthly_total u year month d =
     (case sql_sum (map amount (month_rows u year month d)) of
        Some tot \<Rightarrow> tot
      | None \<Rightarrow> 0)"

text \<open>\<^verbatim>\<open>GROUP BY category\<close>: one result row per category string that occurs among the
  selected rows, carrying the sum over that group (never empty, so never \<^verbatim>\<open>NULL\<close>).
  Groups come out in the order of their key.\<close>

definition get_category_summary :: "int \<Rightarrow> int \<Rightarrow> int \<Rightarrow> db \<Rightarrow> (string \<times> real) list" where
  "get_category_summary u year month d =
     (let rows = month_rows u year month d
      in map (\<lambda>c. (c, sum_list (map amount (filter (\<lambda>r. category r = c) rows))))
             (sort (remdups (map category rows))))"

subsection \<open>The form handlers of \<^verbatim>\<open>MainApp\<close>\<close>

text \<open>\<^verbatim>\<open>str.strip()\<close> on the ASCII range: tab, line feed, vertical tab, form feed,
  carriage return, the four separators \<^verbatim>\<open>0x1c\<close> to \<^verbatim>\<open>0x1f\<close> and the space.\<close>

definition is_space :: "char \<Rightarrow> bool" where
  "is_space c = ((9::nat) \<le> of_char c \<and> of_char c \<le> (13::nat)
                 \<or> (28::nat) \<le> of_char c \<and> of_char c \<le> (32::nat))"

definition strip :: "string \<Rightarrow> string" where
  "strip s = rev (dropWhile is_space (rev (dropWhile is_space s)))"

text \<open>The four entry fields of the form, and the dialogs a handler opens.\<close>

record form =
  amount_var :: string
  category_var :: string
  date_var :: string
  desc_var :: string

datatype dialog =
    ShowError string
  | BudgetExceeded real int int real

text \<open>The test that guards the warning at the end of \<^verbatim>\<open>MainApp.add_expense\<close>.\<close>

definition budget_alert :: "real \<Rightarrow> real \<Rightarrow> bool" where
  "budget_alert total_spent b = (b > 0 \<and> total_spent > b)"

text \<open>
  \<^verbatim>\<open>MainApp.add_expense\<close>. The two library calls are parameters: \<open>py_float\<close> is
  \<^verbatim>\<open>float(...)\<close>, with \<open>None\<close> where it raises, and \<open>strptime_ok\<close> says whether
  \<^verbatim>\<open>datetime.strptime(date, '%Y-%m-%d')\<close> returns. \<open>year\<close> and \<open>month\<close> are the values
  of the two spin boxes. An exception of the store is not caught by the handler.
\<close>

definition MainApp_add_expense ::
  "(string \<Rightarrow> real option) \<Rightarrow> (string \<Rightarrow> bool) \<Rightarrow> int \<Rightarrow> form \<Rightarrow> int \<Rightarrow> int \<Rightarrow> db
     \<Rightarrow> db_error + (db \<times> dialog list)" where
  "MainApp_add_expense py_float strptime_ok u f year month d =
     (case py_float (amount_var f) of
        None \<Rightarrow> Inr (d, [ShowError ''Enter valid amount''])
      | Some amt \<Rightarrow>
          let cat = (if strip (category_var f) = [] then ''Other'' else strip (category_var f));
              dt = strip (date_var f)
          in if \<not> strptime_ok dt then Inr (d, [ShowError ''Date must be YYYY-MM-DD''])
             else
               let desc = strip (desc_var f)
               in case add_expense u amt cat desc dt d of
                    Inl e \<Rightarrow> Inl e
                  | Inr d' \<Rightarrow>
                      let spent = get_monthly_total u year month d';
                          b = get_budget u d'
                      in Inr (d', if budget_alert spent b
                                  then [BudgetExceeded b year month spent] else []))"

subsection \<open>The two library parsers on plain ASCII input\<close>

definition is_digit :: "char \<Rightarrow> bool" where
  "is_digit c = (CHR ''0'' \<le> c \<and> c \<le> CHR ''9'')"

definition dec :: "string \<Rightarrow> nat" where
  "dec s = foldl (\<lambda>n c. 10 * n + (of_char c - 48)) 0 s"

text \<open>
  \<^verbatim>\<open>float(s)\<close> on the literals \<^verbatim>\<open>[sign] digits [. digits]\<close> and
  \<^verbatim>\<open>[sign] . digits\<close>, surrounding whitespace ignored. Python reads exponents,
  underscores, \<^verbatim>\<open>inf\<close> and \<^verbatim>\<open>nan\<close> as well; those forms are not covered by this
  function, which is only ever applied to plain literals below.
\<close>

definition float_plain :: "string \<Rightarrow> real option" where
  "float_plain s =
     (let t = strip s;
          neg = (t \<noteq> [] \<and> hd t = CHR ''-'');
          u = (if t \<noteq> [] \<and> (hd t = CHR ''-'' \<or> hd t = CHR ''+'') then tl t else t);
          ip = takeWhile is_digit u;
          rest = dropWhile is_digit u;
          fp = (if rest = [] then Some []
                else if hd rest = CHR ''.'' \<and> list_all is_digit (tl rest) then Some (tl rest)
                else None)
      in case fp of
           None \<Rightarrow> None
         | Some fr \<Rightarrow>
             if ip = [] \<and> fr = [] then None
             else
               let v = real (dec ip) + real (dec fr) / 10 ^ length fr
               in Some (if neg then - v else v))"

text \<open>
  \<^verbatim>\<open>datetime.strptime(s, '%Y-%m-%d')\<close> returns: the whole of \<open>s\<close> must match
  \<^verbatim>\<open>\d\d\d\d-(1[0-2]|0[1-9]|[1-9])-(3[0-1]|[1-2]\d|0[1-9]|[1-9]| [1-9])\<close>, and the
  three numbers must name a day of the proleptic Gregorian calendar from year 1 on.
  Only ASCII digits are covered.
\<close>

definition split_dash :: "string \<Rightarrow> string \<times> string" where
  "split_dash s = (takeWhile (\<lambda>c. c \<noteq> CHR ''-'') s, drop 1 (dropWhile (\<lambda>c. c \<noteq> CHR ''-'') s))"

definition is_leap :: "nat \<Rightarrow> bool" where
  "is_leap y = (y mod 4 = 0 \<and> (y mod 100 \<noteq> 0 \<or> y mod 400 = 0))"

definition days_in_month :: "nat \<Rightarrow> nat \<Rightarrow> nat" where
  "days_in_month y m =
     (if m = 2 then (if is_leap y then 29 else 28)
      else if m = 4 \<or> m = 6 \<or> m = 9 \<or> m = 11 then 30 else 31)"

definition strptime_ymd :: "string \<Rightarrow> bool" where
  "strptime_ymd s =
     (let (ys, r1) = split_dash s;
          (ms, r2) = split_dash r1;
          ds = (if r2 \<noteq> [] \<and> hd r2 = CHR '' '' \<and> length r2 = 2 then tl r2 else r2)
      in length (filter (\<lambda>c. c = CHR ''-'') s) = 2
         \<and> length ys = 4 \<and> list_all is_digit ys
         \<and> (length ms = 1 \<or> length ms = 2) \<and> list_all is_digit ms
         \<and> 1 \<le> dec ms \<and> dec ms \<le> 12
         \<and> (length ds = 1 \<or> length ds = 2) \<and> list_all is_digit ds
         \<and> 1 \<le> dec ds \<and> dec ds \<le> 31
         \<and> 1 \<le> dec ys \<and> dec ds \<le> days_in_month (dec ys) (dec ms))"

subsection \<open>The aggregation period read as a calendar month\<close>







subsection \<open>A small store for the examples\<close>

definition sample_db :: db where
  "sample_db =
     \<lparr>users = [\<lparr>uid = 1, username = ''alice'', password_hash = ''h1'', budget = 100\<rparr>],
      users_seq = 1,
      categories = [\<lparr>cat_id = 1, name = ''Food'', cat_user_id = None\<rparr>,
                    \<lparr>cat_id = 2, name = ''Bills'', cat_user_id = None\<rparr>,
                    \<lparr>cat_id = 3, name = ''Food'', cat_user_id = Some 1\<rparr>],
      categories_seq = 3,
      expenses = [\<lparr>eid = 1, user_id = 1, amount = 50, category = ''Food'',
                    description = '''', date = ''2024-03-15''\<rparr>,
                  \<lparr>eid = 2, user_id = 1, amount = 30, category = ''Food'',
                    description = '''', date = ''2024-03-20''\<rparr>,
                  \<lparr>eid = 3, user_id = 1, amount = 20, category = ''Bills'',
                    description = ''rent'', date = ''2024-12-31''\<rparr>,
                  \<lparr>eid = 4, user_id = 2, amount = 7, category = ''Food'',
                    description = '''', date = ''2024-03-16''\<rparr>],
      expenses_seq = 4\<rparr>"

section \<open>Properties\<close>

subsection \<open>Facts about the statements of the store\<close>

lemma add_expense_Inr:
  "add_expense u amt cat desc dt d =
     Inr (d\<lparr>expenses := expenses d @
               [\<lparr>eid = next_rowid (expenses_seq d) (map eid (expenses d)), user_id = u,
                 amount = amt, category = cat, description = desc, date = dt\<rparr>],
             expenses_seq := next_rowid (expenses_seq d) (map eid (expenses d))\<rparr>)"
  by (simp add: add_expense_def Let_def)

lemma month_rows_add_other:
  "a \<noteq> b \<Longrightarrow> add_expense b amt cat desc dt d = Inr d' \<Longrightarrow>
     month_rows a y m d' = month_rows a y m d"
  by (auto simp: add_expense_Inr month_rows_def)

text \<open>Unfolding the monthly queries on a concrete store.\<close>

lemmas period_eval = get_monthly_total_def get_category_summary_def month_rows_def
  month_start_def month_end_def fmt_d_def zfill_def digits.simps digit_char_def sql_sum_def

lemma filter_absent_id:
  "k \<notin> eid ` set rows \<Longrightarrow> filter (\<lambda>r. eid r \<noteq> k) rows = rows"
  by (induction rows) auto

subsection \<open>Budget alert\<close>

text \<open>
  C1. The warning of \<^verbatim>\<open>MainApp.add_expense\<close> is decided by \<open>budget_alert\<close>, which
  holds if and only if the budget is positive and the total is strictly above it. A
  budget of 0 gives no alert whatever the total, and a total equal to the budget gives
  none. When the handler accepts the form, the dialog it opens is the warning exactly
  when the stored budget and the month's total satisfy that test.
\<close>

theorem budget_alert_iff:
  "(budget_alert spent b \<longleftrightarrow> b > 0 \<and> spent > b)
   \<and> \<not> budget_alert spent 0
   \<and> \<not> budget_alert b b
   \<and> (py_float (amount_var f) = Some amt \<and> strptime_ok (strip (date_var f)) \<longrightarrow>
        (\<exists>d'. MainApp_add_expense py_float strptime_ok u f year month d =
                 Inr (d', if get_budget u d' > 0
                             \<and> get_monthly_total u year month d' > get_budget u d'
                          then [BudgetExceeded (get_budget u d') year month
                                  (get_monthly_total u year month d')]
                          else [])))"
  by (simp add: budget_alert_def MainApp_add_expense_def add_expense_Inr Let_def)

theorem budget_alert_iff_witness:
  "float_plain (amount_var \<lparr>amount_var = ''100.01'', category_var = ''Food'',
                             date_var = ''2024-03-15'', desc_var = ''''\<rparr>) = Some (10001 / 100)
   \<and> strptime_ymd (strip (date_var \<lparr>amount_var = ''100.01'', category_var = ''Food'',
                             date_var = ''2024-03-15'', desc_var = ''''\<rparr>))
   \<and> \<not> budget_alert 100 0 \<and> \<not> budget_alert 100 100 \<and> budget_alert (10001 / 100) 100
   \<and> (\<exists>d'. MainApp_add_expense float_plain strptime_ymd 1
               \<lparr>amount_var = ''100.01'', category_var = ''Food'',
                 date_var = ''2024-03-15'', desc_var = ''''\<rparr> 2024 3 empty_db =
              Inr (d', if get_budget 1 d' > 0
                          \<and> get_monthly_total 1 2024 3 d' > get_budget 1 d'
                       then [BudgetExceeded (get_budget 1 d') 2024 3
                               (get_monthly_total 1 2024 3 d')]
                       else []))"
proof -
  let ?f = "\<lparr>amount_var = ''100.01'', category_var = ''Food'',
             date_var = ''2024-03-15'', desc_var = ''''\<rparr>"
  have h: "float_plain (amount_var ?f) = Some (10001 / 100)
           \<and> strptime_ymd (strip (date_var ?f))"
    by code_simp
  have a: "\<not> budget_alert 100 0" "\<not> budget_alert 100 100" "budget_alert (10001 / 100) 100"
    using budget_alert_iff [of 100 0] budget_alert_iff [of 100 100]
      budget_alert_iff [of "10001 / 100" 100]
    by simp_all
  from budget_alert_iff [of 0 0 float_plain ?f "10001 / 100" strptime_ymd 1 2024 3 empty_db] h
  have "\<exists>d'. MainApp_add_expense float_plain strptime_ymd 1 ?f 2024 3 empty_db =
              Inr (d', if get_budget 1 d' > 0
                          \<and> get_monthly_total 1 2024 3 d' > get_budget 1 d'
                       then [BudgetExceeded (get_budget 1 d') 2024 3
                               (get_monthly_total 1 2024 3 d')]
                       else [])"
    by blast
  with h a show ?thesis
    by blast
qed

subsection \<open>Deleting an expense\<close>

text \<open>
  C8. \<^verbatim>\<open>delete_expense\<close> is idempotent: when no expense carries the id the store is
  left exactly as it was, and in every store deleting the same id twice gives the same
  store (users, categories, expenses and counters) as deleting it once.
\<close>

theorem delete_expense_idempotent:
  "(exp_id \<notin> eid ` set (expenses d) \<longrightarrow> delete_expense exp_id d = d)
   \<and> delete_expense exp_id (delete_expense exp_id d) = delete_expense exp_id d"
  by (simp add: delete_expense_def filter_absent_id)

theorem delete_expense_idempotent_witness:
  "7 \<notin> eid ` set (expenses empty_db)
   \<and> delete_expense 7 empty_db = empty_db
   \<and> delete_expense 7 (delete_expense 7 empty_db) = delete_expense 7 empty_db"
  using delete_expense_idempotent [of 7 empty_db]
  by (simp add: empty_db_def)

subsection \<open>Adding an expense leaves other users alone\<close>

text \<open>
  C10. For two different user ids \<open>a\<close> and \<open>b\<close> and any store, \<^verbatim>\<open>add_expense\<close> for
  \<open>b\<close> succeeds and leaves \<^verbatim>\<open>get_expenses\<close>, \<^verbatim>\<open>get_monthly_total\<close> and
  \<^verbatim>\<open>get_category_summary\<close> of \<open>a\<close> unchanged, for every year and month.
\<close>

theorem add_expense_frame:
  assumes "a \<noteq> b"
  shows "\<exists>d'. add_expense b amt cat desc dt d = Inr d'
           \<and> get_expenses a d' = get_expenses a d
           \<and> (\<forall>year month.
                 get_monthly_total a year month d' = get_monthly_total a year month d
                 \<and> get_category_summary a year month d' = get_category_summary a year month d)"
proof -
  obtain d' where d': "add_expense b amt cat desc dt d = Inr d'"
    by (simp add: add_expense_Inr)
  have "get_expenses a d' = get_expenses a d"
    using assms d' by (auto simp: add_expense_Inr get_expenses_def)
  moreover have "get_monthly_total a year month d' = get_monthly_total a year month d"
    and "get_category_summary a year month d' = get_category_summary a year month d"
    for year month
    using month_rows_add_other [OF assms d']
    by (simp_all add: get_monthly_total_def get_category_summary_def)
  ultimately show ?thesis
    using d' by blast
qed

theorem add_expense_frame_witness:
  "(1::int) \<noteq> 2
   \<and> (\<exists>d'. add_expense 2 50 ''Food'' '''' ''2024-03-15'' empty_db = Inr d'
          \<and> get_expenses 1 d' = get_expenses 1 empty_db
          \<and> get_monthly_total 1 2024 3 d' = get_monthly_total 1 2024 3 empty_db
          \<and> get_category_summary 1 2024 3 d' = get_category_summary 1 2024 3 empty_db)"
proof -
  have h: "(1::int) \<noteq> 2"
    by simp
  from add_expense_frame [OF h, of 50 "''Food''" "''''" "''2024-03-15''" empty_db]
  obtain d' where "add_expense 2 50 ''Food'' '''' ''2024-03-15'' empty_db = Inr d'"
    and "get_expenses 1 d' = get_expenses 1 empty_db"
    and "\<forall>year month.
           get_monthly_total 1 year month d' = get_monthly_total 1 year month empty_db
           \<and> get_category_summary 1 year month d' = get_category_summary 1 year month empty_db"
    by blast
  with h show ?thesis
    by blast
qed

subsection \<open>Row ids\<close>

lemma fold_max_mono: "(a::int) \<le> fold max ids a"
proof (induction ids arbitrary: a)
  case Nil
  then show ?case by simp
next
  case (Cons y ys)
  have "a \<le> max y a" by simp
  also have "\<dots> \<le> fold max ys (max y a)" by (rule Cons.IH)
  finally show ?case by simp
qed

lemma fold_max_ge: "(x::int) \<in> set ids \<Longrightarrow> x \<le> fold max ids a"
proof (induction ids arbitrary: a)
  case Nil
  then show ?case by simp
next
  case (Cons y ys)
  show ?case
  proof (cases "x = y")
    case True
    have "x \<le> max y a" using True by simp
    also have "\<dots> \<le> fold max ys (max y a)" by (rule fold_max_mono)
    finally show ?thesis by simp
  next
    case False
    with Cons.prems have "x \<in> set ys" by simp
    then show ?thesis using Cons.IH by simp
  qed
qed

lemma next_rowid_fresh: "next_rowid s ids \<notin> set ids"
proof
  assume "next_rowid s ids \<in> set ids"
  then have "next_rowid s ids \<le> fold max ids 0" by (rule fold_max_ge)
  then show False by (simp add: next_rowid_def)
qed

subsection \<open>Updating an expense\<close>





subsection \<open>Registration and login\<close>

lemma find_append_new:
  "\<not> list_ex P xs \<Longrightarrow> find P (xs @ [x]) = (if P x then Some x else None)"
  by (induction xs) auto

lemma find_unique:
  assumes "distinct (map f xs)" and "r \<in> set xs" and "P r" and "\<And>x. P x \<Longrightarrow> f x = f r"
  shows "find P xs = Some r"
  using assms(1,2)
proof (induction xs)
  case Nil
  then show ?case by simp
next
  case (Cons x xs)
  show ?case
  proof (cases "x = r")
    case True
    with assms(3) show ?thesis by simp
  next
    case False
    with Cons.prems have r: "r \<in> set xs" by simp
    have "\<not> P x"
    proof
      assume "P x"
      then have "f x = f r" by (rule assms(4))
      with r have "f x \<in> f ` set xs" by (simp add: image_iff) blast
      with Cons.prems(1) show False by simp
    qed
    moreover have "find P xs = Some r"
      using Cons.IH Cons.prems(1) r by simp
    ultimately show ?thesis by simp
  qed
qed

lemma add_user_duplicate:
  "uname \<in> username ` set (users d) \<Longrightarrow> add_user H uname pw d = (False, d)"
  by (simp add: add_user_def insert_user_def)

lemma add_user_fresh:
  assumes new: "uname \<notin> username ` set (users d)"
  shows "\<exists>i. i \<notin> uid ` set (users d)
           \<and> add_user H uname pw d =
               (True, d\<lparr>users := users d @
                          [\<lparr>uid = i, username = uname, password_hash = H pw, budget = 0\<rparr>],
                        users_seq := i\<rparr>)
           \<and> authenticate H uname pw (snd (add_user H uname pw d)) =
               Some \<lparr>uid = i, username = uname, password_hash = H pw, budget = 0\<rparr>
           \<and> (\<forall>pw'. H pw' \<noteq> H pw \<longrightarrow>
                 authenticate H uname pw' (snd (add_user H uname pw d)) = None)"
proof -
  let ?i = "next_rowid (users_seq d) (map uid (users d))"
  have none: "\<not> list_ex (\<lambda>r. username r = uname \<and> password_hash r = h) (users d)" for h
    using new by (auto simp: list_ex_iff)
  have "?i \<notin> uid ` set (users d)"
    using next_rowid_fresh [of "users_seq d" "map uid (users d)"] by simp
  moreover have "add_user H uname pw d =
             (True, d\<lparr>users := users d @
                        [\<lparr>uid = ?i, username = uname, password_hash = H pw, budget = 0\<rparr>],
                      users_seq := ?i\<rparr>)"
    using new by (simp add: add_user_def insert_user_def Let_def)
  ultimately show ?thesis
    by (intro exI [of _ ?i]) (simp add: authenticate_def find_append_new [OF none])
qed

lemma authenticate_Some_iff:
  assumes dist: "distinct (map username (users d))"
  shows "authenticate H uname pw d = Some r
           \<longleftrightarrow> r \<in> set (users d) \<and> username r = uname \<and> password_hash r = H pw"
proof
  assume "authenticate H uname pw d = Some r"
  then show "r \<in> set (users d) \<and> username r = uname \<and> password_hash r = H pw"
    by (auto simp: authenticate_def find_Some_iff)
next
  assume "r \<in> set (users d) \<and> username r = uname \<and> password_hash r = H pw"
  then show "authenticate H uname pw d = Some r"
    unfolding authenticate_def Let_def
    by (intro find_unique [OF dist]) auto
qed

lemma authenticate_None_iff:
  "authenticate H uname pw d = None
     \<longleftrightarrow> \<not> list_ex (\<lambda>r. username r = uname \<and> password_hash r = H pw) (users d)"
  by (auto simp: authenticate_def find_None_iff list_ex_iff)

text \<open>The \<^verbatim>\<open>UNIQUE\<close> constraint on user names is an invariant of the store.\<close>

lemma insert_user_distinct:
  "distinct (map username (users d)) \<Longrightarrow> insert_user n h d = Inr d' \<Longrightarrow>
     distinct (map username (users d'))"
  by (auto simp: insert_user_def Let_def split: if_splits)

lemma add_user_distinct:
  "distinct (map username (users d)) \<Longrightarrow> distinct (map username (users (snd (add_user H n pw d))))"
  by (auto simp: add_user_def Let_def insert_user_distinct split: sum.splits db_error.splits)

text \<open>
  C9. \<^verbatim>\<open>add_user\<close> returns false and leaves the store unchanged when the user name is
  taken; otherwise it returns true and appends one user with a fresh id, the hash of the
  secret and budget 0, after which \<^verbatim>\<open>authenticate\<close> with the same secret returns that
  user and with any secret of a different hash returns nothing. In a store whose user
  names are distinct, \<^verbatim>\<open>authenticate\<close> returns a row exactly when that row is a user
  with the given name whose stored hash is the hash of the given secret; it returns
  nothing exactly when there is no such row. The hash is any function of the secret.
\<close>

theorem register_authenticate:
  "(uname \<in> username ` set (users d) \<longrightarrow> add_user H uname pw d = (False, d))
   \<and> (uname \<notin> username ` set (users d) \<longrightarrow>
        (\<exists>i. i \<notin> uid ` set (users d)
           \<and> add_user H uname pw d =
               (True, d\<lparr>users := users d @
                          [\<lparr>uid = i, username = uname, password_hash = H pw, budget = 0\<rparr>],
                        users_seq := i\<rparr>)
           \<and> authenticate H uname pw (snd (add_user H uname pw d)) =
               Some \<lparr>uid = i, username = uname, password_hash = H pw, budget = 0\<rparr>
           \<and> (\<forall>pw'. H pw' \<noteq> H pw \<longrightarrow>
                 authenticate H uname pw' (snd (add_user H uname pw d)) = None)))
   \<and> (distinct (map username (users d)) \<longrightarrow>
        (authenticate H uname pw d = Some r
           \<longleftrightarrow> r \<in> set (users d) \<and> username r = uname \<and> password_hash r = H pw))
   \<and> (authenticate H uname pw d = None
        \<longleftrightarrow> \<not> list_ex (\<lambda>r. username r = uname \<and> password_hash r = H pw) (users d))"
  by (intro conjI impI add_user_duplicate add_user_fresh authenticate_Some_iff
        authenticate_None_iff)

text \<open>The scenario of the specification, with string reversal standing in for the hash.\<close>

theorem register_authenticate_witness:
  "''alice'' \<notin> username ` set (users empty_db)
   \<and> rev ''wrong'' \<noteq> rev ''pw1''
   \<and> (\<exists>i. add_user rev ''alice'' ''pw1'' empty_db =
             (True, empty_db\<lparr>users := users empty_db @
                        [\<lparr>uid = i, username = ''alice'', password_hash = rev ''pw1'', budget = 0\<rparr>],
                      users_seq := i\<rparr>)
         \<and> authenticate rev ''alice'' ''pw1'' (snd (add_user rev ''alice'' ''pw1'' empty_db)) =
             Some \<lparr>uid = i, username = ''alice'', password_hash = rev ''pw1'', budget = 0\<rparr>
         \<and> authenticate rev ''alice'' ''wrong'' (snd (add_user rev ''alice'' ''pw1'' empty_db)) = None)
   \<and> ''alice'' \<in> username ` set (users sample_db)
   \<and> add_user rev ''alice'' ''pw2'' sample_db = (False, sample_db)
   \<and> distinct (map username (users sample_db))
   \<and> authenticate rev ''alice'' ''1h'' sample_db = Some (hd (users sample_db))"
proof -
  have h1: "''alice'' \<notin> username ` set (users empty_db)"
    by (simp add: empty_db_def)
  have h2: "rev ''wrong'' \<noteq> rev ''pw1''"
    by simp
  have h3: "''alice'' \<in> username ` set (users sample_db)"
    by (simp add: sample_db_def)
  have h4: "distinct (map username (users sample_db))"
    by (simp add: sample_db_def)
  have h5: "hd (users sample_db) \<in> set (users sample_db)
            \<and> username (hd (users sample_db)) = ''alice''
            \<and> password_hash (hd (users sample_db)) = rev ''1h''"
    by (simp add: sample_db_def)
  note t1 = register_authenticate [of "''alice''" empty_db rev "''pw1''"]
  note ex = t1 [THEN conjunct2, THEN conjunct1, rule_format, OF h1]
  from ex obtain i where i: "i \<notin> uid ` set (users empty_db)
           \<and> add_user rev ''alice'' ''pw1'' empty_db =
               (True, empty_db\<lparr>users := users empty_db @
                          [\<lparr>uid = i, username = ''alice'', password_hash = rev ''pw1'', budget = 0\<rparr>],
                        users_seq := i\<rparr>)
           \<and> authenticate rev ''alice'' ''pw1'' (snd (add_user rev ''alice'' ''pw1'' empty_db)) =
               Some \<lparr>uid = i, username = ''alice'', password_hash = rev ''pw1'', budget = 0\<rparr>
           \<and> (\<forall>pw'. rev pw' \<noteq> rev ''pw1'' \<longrightarrow>
                 authenticate rev ''alice'' pw' (snd (add_user rev ''alice'' ''pw1'' empty_db)) = None)"
    ..
  note i2 = i [THEN conjunct2]
  note i3 = i2 [THEN conjunct2]
  note w = i3 [THEN conjunct2, rule_format, OF h2]
  have a: "\<exists>i. add_user rev ''alice'' ''pw1'' empty_db =
             (True, empty_db\<lparr>users := users empty_db @
                        [\<lparr>uid = i, username = ''alice'', password_hash = rev ''pw1'', budget = 0\<rparr>],
                      users_seq := i\<rparr>)
         \<and> authenticate rev ''alice'' ''pw1'' (snd (add_user rev ''alice'' ''pw1'' empty_db)) =
             Some \<lparr>uid = i, username = ''alice'', password_hash = rev ''pw1'', budget = 0\<rparr>
         \<and> authenticate rev ''alice'' ''wrong'' (snd (add_user rev ''alice'' ''pw1'' empty_db)) = None"
    by (rule exI [of _ i], intro conjI) (rule i2 [THEN conjunct1] i3 [THEN conjunct1] w)+
  note t2 = register_authenticate [of "''alice''" sample_db rev "''pw2''"]
  note b = t2 [THEN conjunct1, rule_format, OF h3]
  note t3 = register_authenticate [of "''alice''" sample_db rev "''1h''" "hd (users sample_db)"]
  note c = t3 [THEN conjunct2, THEN conjunct2, THEN conjunct1, rule_format, OF h4, THEN iffD2, OF h5]
  from h1 h2 a h3 b h4 c show ?thesis
    by (intro conjI)
qed

subsection \<open>Seeding the default categories\<close>

lemma insert_category_global:
  "insert_category n None d =
     Inr (d\<lparr>categories := categories d @
               [\<lparr>cat_id = next_rowid (categories_seq d) (map cat_id (categories d)),
                 name = n, cat_user_id = None\<rparr>],
             categories_seq := next_rowid (categories_seq d) (map cat_id (categories d))\<rparr>)"
  by (simp add: insert_category_def unique_name_user_id_def Let_def)

lemma seed_loop_appends:
  "map (\<lambda>r. (name r, cat_user_id r))
       (categories (fold (\<lambda>cat d'. case insert_category cat None d' of
                                      Inr d'' \<Rightarrow> d''
                                    | Inl IntegrityError \<Rightarrow> d') ns d)) =
     map (\<lambda>r. (name r, cat_user_id r)) (categories d) @ map (\<lambda>n. (n, None)) ns"
  by (induction ns arbitrary: d) (simp_all add: insert_category_global)

lemma create_tables_appends:
  "map (\<lambda>r. (name r, cat_user_id r)) (categories (create_tables d)) =
     map (\<lambda>r. (name r, cat_user_id r)) (categories d) @ map (\<lambda>n. (n, None)) defaults"
  unfolding create_tables_def by (rule seed_loop_appends)

lemma get_categories_global_only:
  assumes "map (\<lambda>r. (name r, cat_user_id r)) (categories d) = map (\<lambda>n. (n, None)) ns"
  shows "get_categories u d = sort ns"
proof -
  have n: "map name (categories d) = ns"
    using arg_cong [OF assms, of "map fst"] by (simp add: o_def)
  have "map cat_user_id (categories d) = map (\<lambda>n. None) ns"
    using arg_cong [OF assms, of "map snd"] by (simp add: o_def)
  then have "\<forall>x \<in> set (map cat_user_id (categories d)). x = None"
    by auto
  then have g: "\<forall>r \<in> set (categories d). cat_user_id r = None"
    by simp
  then have "filter (\<lambda>r. cat_user_id r = None) (categories d) = categories d"
    and "filter (\<lambda>r. cat_user_id r = None \<or> cat_user_id r = Some i) (categories d) = categories d" for i
    by (simp_all add: filter_id_conv)
  with n show ?thesis
    by (cases u) (simp_all add: get_categories_def)
qed

text \<open>
  C4 does not hold of the code: \<^verbatim>\<open>create_tables\<close> is not idempotent. Every run appends
  six global rows, one per seed name, to whatever the store holds, because a row with a
  \<^verbatim>\<open>NULL\<close> user id never violates \<^verbatim>\<open>UNIQUE(name, user_id)\<close>. After two runs on the
  empty store there are two global rows named Food, and \<^verbatim>\<open>get_categories\<close> lists every
  seed name twice, for every user.
\<close>

theorem create_tables_twice:
  "map (\<lambda>r. (name r, cat_user_id r)) (categories (create_tables (create_tables d))) =
     map (\<lambda>r. (name r, cat_user_id r)) (categories d)
       @ map (\<lambda>n. (n, None)) defaults @ map (\<lambda>n. (n, None)) defaults
   \<and> length (filter (\<lambda>r. name r = ''Food'' \<and> cat_user_id r = None)
               (categories (create_tables (create_tables empty_db)))) = 2
   \<and> get_categories u (create_tables (create_tables empty_db)) =
       [''Bills'', ''Bills'', ''Entertainment'', ''Entertainment'', ''Food'', ''Food'',
        ''Other'', ''Other'', ''Shopping'', ''Shopping'', ''Transport'', ''Transport'']"
proof -
  have rows: "map (\<lambda>r. (name r, cat_user_id r)) (categories (create_tables (create_tables d))) =
     map (\<lambda>r. (name r, cat_user_id r)) (categories d)
       @ map (\<lambda>n. (n, None)) defaults @ map (\<lambda>n. (n, None)) defaults" for d
    by (simp add: create_tables_appends)
  have two: "length (filter (\<lambda>r. name r = ''Food'' \<and> cat_user_id r = None)
               (categories (create_tables (create_tables empty_db)))) = 2"
    by code_simp
  have "map (\<lambda>r. (name r, cat_user_id r)) (categories (create_tables (create_tables empty_db))) =
          map (\<lambda>n. (n, None)) (defaults @ defaults)"
    using rows [of empty_db] by (simp add: empty_db_def)
  then have "get_categories u (create_tables (create_tables empty_db)) = sort (defaults @ defaults)"
    by (rule get_categories_global_only)
  also have "\<dots> = [''Bills'', ''Bills'', ''Entertainment'', ''Entertainment'', ''Food'', ''Food'',
        ''Other'', ''Other'', ''Shopping'', ''Shopping'', ''Transport'', ''Transport'']"
    by code_simp
  finally have names: "get_categories u (create_tables (create_tables empty_db)) =
       [''Bills'', ''Bills'', ''Entertainment'', ''Entertainment'', ''Food'', ''Food'',
        ''Other'', ''Other'', ''Shopping'', ''Shopping'', ''Transport'', ''Transport'']" .
  from rows two names show ?thesis
    by (intro conjI)
qed

subsection \<open>Listing categories\<close>

text \<open>
  C5, as the specification states it, promises a list without duplicate names. After the
  defaults are seeded once and user 1 adds a category of their own named Food, which
  succeeds, \<^verbatim>\<open>get_categories\<close> for user 1 lists Food twice.
\<close>

theorem get_categories_duplicate_counterexample:
  "fst (add_category ''Food'' (Some 1) (create_tables empty_db))
   \<and> get_categories (Some 1) (snd (add_category ''Food'' (Some 1) (create_tables empty_db))) =
       [''Bills'', ''Entertainment'', ''Food'', ''Food'', ''Other'', ''Shopping'', ''Transport'']
   \<and> \<not> distinct (get_categories (Some 1)
                    (snd (add_category ''Food'' (Some 1) (create_tables empty_db))))"
  by code_simp

lemma count_list_insort:
  "count_list (insort_key f x xs) n = count_list (x # xs) n"
  by (induction xs) auto

lemma count_list_sort: "count_list (sort_key f xs) n = count_list xs n"
  by (induction xs) (auto simp: count_list_insort)

lemma count_list_map_filter:
  "count_list (map f (filter P xs)) n = length (filter (\<lambda>x. f x = n \<and> P x) xs)"
  by (induction xs) auto

text \<open>
  C5, amended. \<^verbatim>\<open>get_categories\<close> returns a list in ascending order whose set of names
  is the union of the global names and the names of the given user's own categories. It
  holds one entry per selected row: a name occurs as many times as there are global or
  own rows carrying it, so the list is free of duplicates exactly when the selected rows
  have pairwise different names.
\<close>

theorem get_categories_rows:
  "sorted (get_categories u d)
   \<and> set (get_categories u d) =
       name ` {r \<in> set (categories d). cat_user_id r = None}
       \<union> name ` {r \<in> set (categories d). cat_user_id r = u}
   \<and> count_list (get_categories u d) n =
       length (filter (\<lambda>r. name r = n \<and> (cat_user_id r = None \<or> cat_user_id r = u))
                 (categories d))
   \<and> (distinct (get_categories u d) \<longleftrightarrow>
        distinct (map name (filter (\<lambda>r. cat_user_id r = None \<or> cat_user_id r = u)
                                   (categories d))))"
proof (cases u)
  case None
  then show ?thesis
    by (auto simp: get_categories_def count_list_sort count_list_map_filter)
next
  case (Some i)
  then show ?thesis
    by (auto simp: get_categories_def count_list_sort count_list_map_filter)
qed

subsection \<open>Adding an expense from the form\<close>




subsection \<open>Totals per category\<close>







subsection \<open>Decimal strings and their order\<close>


























text \<open>
  The two side conditions of the calendar reading cannot be dropped. The upper bound of
  December 9999 has five digits for the year and sorts below every date of that month;
  and a date with a one-digit month, which \<^verbatim>\<open>strptime\<close> accepts, sorts outside the
  bounds of its own month.
\<close>

lemma december_9999_bounds:
  "month_end 9999 12 = ''10000-01-01'' \<and> \<not> ''9999-12-15'' < month_end 9999 12"
  by (simp add: period_eval)

lemma unpadded_date_outside_its_month:
  "strptime_ymd ''2024-3-5''
   \<and> \<not> (month_start 2024 3 \<le> ''2024-3-5'' \<and> ''2024-3-5'' < month_end 2024 3)"
proof -
  have "strptime_ymd ''2024-3-5''"
    by code_simp
  moreover have "\<not> (month_start 2024 3 \<le> ''2024-3-5'' \<and> ''2024-3-5'' < month_end 2024 3)"
    by (simp add: period_eval)
  ultimately show ?thesis
    by simp
qed

end
